theory Spec2Isabelle
  imports
    Main
    "HOL-Library.Word"
    "HOL-Library.Multiset"
    "HOL-Library.Char_ord"
    "HOL-Library.List_Lexorder"
    "HOL-Library.Product_Lexorder"
begin

section \<open>Strings and formatting helpers of the Go standard library\<close>

text \<open>
  Go strings are byte sequences; they are modelled as \<^typ>\<open>string\<close>. An \<open>error\<close> value is
  modelled by the text that \<open>err.Error()\<close> returns; the \<open>nil\<close> error is the right
  injection of a sum or \<open>None\<close>.
\<close>

type_synonym error = string

text \<open>\<open>strings.HasPrefix\<close>, \<open>strings.HasSuffix\<close> and \<open>strings.Contains\<close>.\<close>

fun HasPrefix :: "string \<Rightarrow> string \<Rightarrow> bool" where
  "HasPrefix s [] = True"
| "HasPrefix [] (p # ps) = False"
| "HasPrefix (c # cs) (p # ps) = (c = p \<and> HasPrefix cs ps)"

definition HasSuffix :: "string \<Rightarrow> string \<Rightarrow> bool" where
  "HasSuffix s suf = HasPrefix (rev s) (rev suf)"

fun Contains :: "string \<Rightarrow> string \<Rightarrow> bool" where
  "Contains [] substr = (substr = [])"
| "Contains (c # cs) substr = (HasPrefix (c # cs) substr \<or> Contains cs substr)"

text \<open>\<open>strings.Join\<close>.\<close>

fun Join :: "string list \<Rightarrow> string \<Rightarrow> string" where
  "Join [] sep = []"
| "Join [x] sep = x"
| "Join (x # y # ys) sep = x @ sep @ Join (y # ys) sep"

text \<open>The decimal rendering of a non-negative integer, as the verb \<open>%d\<close> prints it.\<close>

definition digit :: "nat \<Rightarrow> char" where
  "digit d = ''0123456789'' ! d"

function Itoa :: "nat \<Rightarrow> string" where
  "Itoa n = (if n < 10 then [digit n] else Itoa (n div 10) @ [digit (n mod 10)])"
  by pat_completeness auto
termination
  by (relation "measure id") auto

declare Itoa.simps [simp del]

text \<open>The verb \<open>%s\<close> applied to a slice of strings prints the elements between
  brackets, separated by one space.\<close>

definition Sprint_strings :: "string list \<Rightarrow> string" where
  "Sprint_strings xs = ''['' @ Join xs '' '' @ '']''"

section \<open>The retry wrapper\<close>

text \<open>
  \<open>doWithRetry\<close> takes a closure \<open>f\<close> that performs one backend call, stores the call's
  results in variables of the enclosing function and returns the call's error. The model
  threads the backend state \<open>'s\<close> through \<open>f\<close>; the value \<open>f\<close> returns is the call's
  outcome, \<open>Inl\<close> the error or \<open>Inr\<close> the result that the closure stored. The model
  of \<open>doWithRetry\<close> returns the outcome of the last call (what the captured variables hold
  when the wrapper returns), the backend state, and how many times it waited for
  \<open>sleepTime\<close>.
\<close>

definition maxRetries :: nat where
  "maxRetries = 23"

definition rateLimitMarker :: string where
  "rateLimitMarker = ''unexpected status code from api: 405''"

function doWithRetry_loop ::
  "('s \<Rightarrow> (error + 'a) \<times> 's) \<Rightarrow> nat \<Rightarrow> nat \<Rightarrow> 's \<Rightarrow> (error + 'a) \<times> 's \<times> nat" where
  "doWithRetry_loop f currentRetry waited s =
     (case f s of
        (Inr v, s') \<Rightarrow> (Inr v, s', waited)
      | (Inl err, s') \<Rightarrow>
          if Contains err rateLimitMarker then
            if currentRetry + 1 \<ge> maxRetries then (Inl err, s', waited)
            else doWithRetry_loop f (currentRetry + 1) (waited + 1) s'
          else (Inl err, s', waited))"
  by pat_completeness auto
termination
  by (relation "measure (\<lambda>(f, currentRetry, waited, s). maxRetries - currentRetry)") auto

declare doWithRetry_loop.simps [simp del]

definition doWithRetry :: "('s \<Rightarrow> (error + 'a) \<times> 's) \<Rightarrow> 's \<Rightarrow> (error + 'a) \<times> 's \<times> nat" where
  "doWithRetry f s = doWithRetry_loop f 0 0 s"

text \<open>A backend call whose outcomes are given by a sequence: the state is the number of
  calls made so far.\<close>

definition call_seq :: "(nat \<Rightarrow> error + 'a) \<Rightarrow> nat \<Rightarrow> (error + 'a) \<times> nat" where
  "call_seq outcomes i = (outcomes i, Suc i)"

definition rateLimited :: "error + 'a \<Rightarrow> bool" where
  "rateLimited r = (case r of Inl err \<Rightarrow> Contains err rateLimitMarker | Inr v \<Rightarrow> False)"

section \<open>Data model\<close>

text \<open>
  \<open>models.RecordConfig\<close>: the fields the provider writes in \<open>toRecords\<close> (\<open>Type\<close>,
  \<open>TTL\<close>, \<open>MxPreference\<close>, \<open>Name\<close>) and the target, which the provider only reaches
  through accessor methods. Field names carry a prefix because several structs of the
  source have a field \<open>Name\<close> or \<open>Type\<close>.
\<close>

record RecordConfig =
  rc_Type :: string
  rc_TTL :: "32 word"
  rc_MxPreference :: "16 word"
  rc_Name :: string
  rc_target :: string

text \<open>Modelled from the spec: the accessors \<open>GetLabel\<close> and \<open>GetTargetField\<close> of
  \<open>models.RecordConfig\<close>, which are not under src/. A Record has a label relative to the
  zone origin (\<open>@\<close> for the apex) and a type-specific canonical target.\<close>

definition GetLabel :: "RecordConfig \<Rightarrow> string" where
  "GetLabel r = rc_Name r"

definition GetTargetField :: "RecordConfig \<Rightarrow> string" where
  "GetTargetField r = rc_target r"

record Nameserver =
  ns_Name :: string

record DomainConfig =
  dc_Name :: string
  dc_Records :: "RecordConfig list"
  dc_Nameservers :: "Nameserver list"

text \<open>The types of the backend client \<open>nc\<close> (go-namecheap). Go's \<open>int\<close> is modelled
  as \<^typ>\<open>int\<close>; the conversions \<open>uint32(...)\<close> and \<open>uint16(...)\<close> are
  \<^const>\<open>word_of_int\<close>, which truncates as Go does.\<close>

record DomainDNSHost =
  host_ID :: int
  host_Name :: string
  host_Type :: string
  host_Address :: string
  host_MXPref :: int
  host_TTL :: int

record DomainDNSGetHostsResult =
  Hosts :: "DomainDNSHost list"

text \<open>\<open>nc.DomainInfo\<close>, reduced to \<open>info.DNSDetails.Nameservers\<close>.\<close>

record DomainInfo =
  DNSDetails_Nameservers :: "string list"

text \<open>The client's calls act on the backend state \<open>'w\<close> and return an error or a result.\<close>

record 'w Client =
  DomainsDNSGetHosts :: "string \<Rightarrow> string \<Rightarrow> 'w \<Rightarrow> (error + DomainDNSGetHostsResult) \<times> 'w"
  DomainDNSSetHosts :: "string \<Rightarrow> string \<Rightarrow> DomainDNSHost list \<Rightarrow> 'w \<Rightarrow> (error + unit) \<times> 'w"
  DomainGetInfo :: "string \<Rightarrow> 'w \<Rightarrow> (error + DomainInfo) \<times> 'w"
  DomainDNSSetCustom :: "string \<Rightarrow> string \<Rightarrow> string \<Rightarrow> 'w \<Rightarrow> (error + unit) \<times> 'w"

record 'w namecheapProvider =
  APIKEY :: string
  APIUser :: string
  client :: "'w Client"

text \<open>
  Functions of other packages that the provider calls and whose code is not under src/
  are parameters of the model: \<open>publicsuffix.PublicSuffix\<close>,
  \<open>publicsuffix.EffectiveTLDPlusOne\<close>, and the methods \<open>SetLabel\<close>, \<open>SetTargetMX\<close>,
  \<open>SetTarget\<close>, \<open>PopulateFromString\<close>, \<open>GetTargetCombined\<close> of \<open>models.RecordConfig\<close>
  and \<open>models.ToNameservers\<close>. A setter that can fail returns the error or the
  updated record.
\<close>

record Deps =
  PublicSuffix :: "string \<Rightarrow> string"
  EffectiveTLDPlusOne :: "string \<Rightarrow> string"
  SetLabel :: "string \<Rightarrow> string \<Rightarrow> RecordConfig \<Rightarrow> RecordConfig"
  SetTargetMX :: "16 word \<Rightarrow> string \<Rightarrow> RecordConfig \<Rightarrow> error + RecordConfig"
  SetTarget :: "string \<Rightarrow> RecordConfig \<Rightarrow> error + RecordConfig"
  PopulateFromString :: "string \<Rightarrow> string \<Rightarrow> string \<Rightarrow> RecordConfig \<Rightarrow> error + RecordConfig"
  GetTargetCombined :: "RecordConfig \<Rightarrow> string"
  ToNameservers :: "string list \<Rightarrow> error + Nameserver list"

text \<open>
  A Correction has a message and an action \<open>F\<close>; a report-only Correction has no action.
  The two closures that the provider stores in \<open>F\<close> are the two constructors of
  \<open>action\<close>, each with the values the closure captures.
\<close>

datatype action =
  GenerateRecords DomainConfig
| SetCustom string string string

record Correction =
  Msg :: string
  F :: "action option"

definition executable :: "Correction \<Rightarrow> bool" where
  "executable c = (F c \<noteq> None)"

text \<open>
  The diff engine (\<open>diff.NewCompat(dc).IncrementalDiff\<close>) and the rendering of one
  change (\<open>Correlation.String\<close>) belong to package \<open>diff\<close>, which is not under src/.
  The planner is modelled for an arbitrary engine, with changes of any type \<open>'c\<close>.
\<close>

type_synonym 'c ChangeSet = "string list \<times> 'c list \<times> 'c list \<times> 'c list \<times> int"

record 'c Differ =
  IncrementalDiff :: "DomainConfig \<Rightarrow> RecordConfig list \<Rightarrow> error + 'c ChangeSet"
  Correlation_String :: "'c \<Rightarrow> string"

section \<open>The provider\<close>

definition NamecheapDefaultNs :: "string list" where
  "NamecheapDefaultNs = [''dns1.registrar-servers.com'', ''dns2.registrar-servers.com'']"

text \<open>\<open>strings.Split(d, ".")[0]\<close> is the part of \<open>d\<close> before its first dot.\<close>

definition splitDomain :: "Deps \<Rightarrow> string \<Rightarrow> string \<times> string" where
  "splitDomain x domain =
     (let tld = PublicSuffix x domain;
          d = EffectiveTLDPlusOne x domain;
          sld = takeWhile (\<lambda>c. c \<noteq> CHR ''.'') d
      in (sld, tld))"

fun toRecords_loop :: "Deps \<Rightarrow> DomainDNSHost list \<Rightarrow> string \<Rightarrow> error + RecordConfig list" where
  "toRecords_loop x [] origin = Inr []"
| "toRecords_loop x (dnsHost # hosts) origin =
     (let record0 = \<lparr> rc_Type = host_Type dnsHost,
                      rc_TTL = word_of_int (host_TTL dnsHost),
                      rc_MxPreference = word_of_int (host_MXPref dnsHost),
                      rc_Name = host_Name dnsHost,
                      rc_target = [] \<rparr>;
          record1 = SetLabel x (host_Name dnsHost) origin record0;
          res =
            (if host_Type dnsHost = ''MX'' then
               SetTargetMX x (word_of_int (host_MXPref dnsHost)) (host_Address dnsHost) record1
             else if host_Type dnsHost = ''FRAME'' \<or> host_Type dnsHost = ''URL''
                     \<or> host_Type dnsHost = ''URL301'' then
               SetTarget x (host_Address dnsHost) record1
             else
               PopulateFromString x (host_Type dnsHost) (host_Address dnsHost) origin record1)
      in case res of
           Inl err \<Rightarrow> Inl err
         | Inr record2 \<Rightarrow>
             (case toRecords_loop x hosts origin of
                Inl err \<Rightarrow> Inl err
              | Inr records \<Rightarrow> Inr (record2 # records)))"

definition toRecords :: "Deps \<Rightarrow> DomainDNSGetHostsResult \<Rightarrow> string \<Rightarrow> error + RecordConfig list" where
  "toRecords x result origin = toRecords_loop x (Hosts result) origin"

text \<open>The test for the parking records that \<open>GetZoneRecords\<close> makes on the fetched hosts.\<close>

definition parkingRecords :: "DomainDNSGetHostsResult \<Rightarrow> bool" where
  "parkingRecords records =
     (length (Hosts records) = 2 \<and>
      host_Type (Hosts records ! 0) = ''CNAME'' \<and>
      Contains (host_Address (Hosts records ! 0)) ''parkingpage'' \<and>
      host_Type (Hosts records ! 1) = ''URL'')"

definition GetZoneRecords ::
  "Deps \<Rightarrow> 'w namecheapProvider \<Rightarrow> string \<Rightarrow> (string \<rightharpoonup> string) \<Rightarrow> 'w
     \<Rightarrow> (error + RecordConfig list) \<times> 'w" where
  "GetZoneRecords x n domain meta w =
     (let (sld, tld) = splitDomain x domain in
      case doWithRetry (DomainsDNSGetHosts (client n) sld tld) w of
        (Inl err, w', waited) \<Rightarrow> (Inl err, w')
      | (Inr records, w', waited) \<Rightarrow>
          if parkingRecords records then (Inr [], w')
          else (toRecords x records domain, w'))"

text \<open>
  Modelled from the spec: \<open>DomainConfig.Filter\<close> of package \<open>models\<close>, which is not
  under src/. The desired records that the predicate rejects are filtered out of the
  declaration before comparison. The provider's predicate also prints, so the model's
  predicate returns what it prints and \<open>Filter\<close> collects the output in record order.
\<close>

fun Filter_loop :: "(RecordConfig \<Rightarrow> bool \<times> 'o list) \<Rightarrow> RecordConfig list \<Rightarrow> RecordConfig list \<times> 'o list" where
  "Filter_loop f [] = ([], [])"
| "Filter_loop f (r # rs) =
     (let (keep, out) = f r;
          (recs, outs) = Filter_loop f rs
      in (if keep then r # recs else recs, out @ outs))"

definition Filter :: "(RecordConfig \<Rightarrow> bool \<times> 'o list) \<Rightarrow> DomainConfig \<Rightarrow> DomainConfig \<times> 'o list" where
  "Filter f dc = (let (recs, outs) = Filter_loop f (dc_Records dc) in (dc\<lparr>dc_Records := recs\<rparr>, outs))"

text \<open>
  The predicate that \<open>GetZoneRecordsCorrections\<close> passes to \<open>Filter\<close>. One call of
  \<open>printer.Println\<close> is modelled by the list of its operands.
\<close>

definition apexNSFilter :: "RecordConfig \<Rightarrow> bool \<times> string list list" where
  "apexNSFilter r =
     (if rc_Type r = ''NS'' \<and> GetLabel r = ''@'' then
        (False,
         if \<not> HasSuffix (GetTargetField r) ''registrar-servers.com.'' then
           [[[CHR 0x0A], GetTargetField r,
             ''Namecheap does not support changing apex NS records. Skipping.'']]
         else [])
      else (True, []))"

text \<open>Modelled from the spec: \<open>diff.GenerateMessageCorrections\<close>, which is not under
  src/. Report-only notices are surfaced as non-executable Corrections: description
  only, no action.\<close>

definition GenerateMessageCorrections :: "string list \<Rightarrow> Correction list" where
  "GenerateMessageCorrections msgs = map (\<lambda>msg. \<lparr> Msg = msg, F = None \<rparr>) msgs"

text \<open>
  \<open>GetZoneRecordsCorrections\<close> returns the declaration as the call leaves it (\<open>dc\<close> is a
  pointer and \<open>Filter\<close> assigns to it), what was printed, and the function's result.
  The closure stored in \<open>F\<close> captures the pointer \<open>dc\<close>, here the declaration after
  filtering.
\<close>

definition GetZoneRecordsCorrections ::
  "'c Differ \<Rightarrow> DomainConfig \<Rightarrow> RecordConfig list
     \<Rightarrow> DomainConfig \<times> string list list \<times> (error + Correction list \<times> int)" where
  "GetZoneRecordsCorrections d dc actual =
     (let (dc', printed) = Filter apexNSFilter dc in
      case IncrementalDiff d dc' actual of
        Inl err \<Rightarrow> (dc', printed, Inl err)
      | Inr (toReport, toCreate, toDelete, toModify, actualChangeCount) \<Rightarrow>
          (let corrections = GenerateMessageCorrections toReport;
               desc = map (\<lambda>i. [CHR 0x0A] @ Correlation_String d i) toCreate
                    @ map (\<lambda>i. [CHR 0x0A] @ Correlation_String d i) toDelete
                    @ map (\<lambda>i. [CHR 0x0A] @ Correlation_String d i) toModify
           in if length desc > 0 then
                (let msg = ''GENERATE_ZONE: '' @ dc_Name dc' @ '' ('' @ Itoa (length (dc_Records dc'))
                           @ '' records)'' @ Sprint_strings desc
                 in (dc', printed,
                     Inr (corrections @ [\<lparr> Msg = msg, F = Some (GenerateRecords dc') \<rparr>],
                          actualChangeCount)))
              else (dc', printed, Inr (corrections, actualChangeCount))))"

fun generateRecords_loop :: "Deps \<Rightarrow> int \<Rightarrow> RecordConfig list \<Rightarrow> DomainDNSHost list" where
  "generateRecords_loop x ident [] = []"
| "generateRecords_loop x ident (r # rs) =
     (let val = (if rc_Type r = ''CAA'' then GetTargetCombined x r else GetTargetField r);
          rec = \<lparr> host_ID = ident,
                  host_Name = GetLabel r,
                  host_Type = rc_Type r,
                  host_Address = val,
                  host_MXPref = uint (rc_MxPreference r),
                  host_TTL = uint (rc_TTL r) \<rparr>
      in rec # generateRecords_loop x (ident + 1) rs)"

definition generateRecords ::
  "Deps \<Rightarrow> 'w namecheapProvider \<Rightarrow> DomainConfig \<Rightarrow> 'w \<Rightarrow> error option \<times> 'w" where
  "generateRecords x n dc w =
     (let recs = generateRecords_loop x 1 (dc_Records dc);
          (sld, tld) = splitDomain x (dc_Name dc)
      in case doWithRetry (DomainDNSSetHosts (client n) sld tld recs) w of
           (Inl err, w', waited) \<Rightarrow> (Some err, w')
         | (Inr u, w', waited) \<Rightarrow> (None, w'))"

definition GetNameservers ::
  "Deps \<Rightarrow> 'w namecheapProvider \<Rightarrow> string \<Rightarrow> error + Nameserver list" where
  "GetNameservers x n domainName = ToNameservers x NamecheapDefaultNs"

text \<open>
  \<open>strings.SplitN(s, ".", 2)\<close>: the parts before and after the first dot, or \<open>s\<close> alone
  when it has no dot.
\<close>

definition SplitN_dot_2 :: "string \<Rightarrow> string list" where
  "SplitN_dot_2 s =
     (case dropWhile (\<lambda>c. c \<noteq> CHR ''.'') s of
        [] \<Rightarrow> [s]
      | dot # rest \<Rightarrow> [takeWhile (\<lambda>c. c \<noteq> CHR ''.'') s, rest])"

text \<open>
  \<open>GetRegistrarCorrections\<close> fails with the backend's error, or panics when it reads
  \<open>parts[1]\<close> of a domain name that has no dot. \<open>sort.Strings\<close> orders by bytes;
  it is \<^const>\<open>sort\<close> on the lexicographic order of byte lists.
\<close>

datatype failure = Err error | PanicIndexOutOfRange

definition GetRegistrarCorrections ::
  "'w namecheapProvider \<Rightarrow> DomainConfig \<Rightarrow> 'w \<Rightarrow> (failure + Correction list) \<times> 'w" where
  "GetRegistrarCorrections n dc w =
     (case doWithRetry (DomainGetInfo (client n) (dc_Name dc)) w of
        (Inl err, w', waited) \<Rightarrow> (Inl (Err err), w')
      | (Inr info, w', waited) \<Rightarrow>
          (let found = Join (sort (DNSDetails_Nameservers info)) '','';
               desiredNs = map ns_Name (dc_Nameservers dc);
               desired = Join (sort desiredNs) '',''
           in if found \<noteq> desired then
                (let parts = SplitN_dot_2 (dc_Name dc) in
                 if length parts < 2 then (Inl PanicIndexOutOfRange, w')
                 else
                   (let sld = parts ! 0; tld = parts ! 1 in
                    (Inr [\<lparr> Msg = ''Change Nameservers from '' @ [CHR 0x27] @ found @ [CHR 0x27]
                                   @ '' to '' @ [CHR 0x27] @ desired @ [CHR 0x27],
                             F = Some (SetCustom sld tld desired) \<rparr>], w')))
              else (Inr [], w')))"

text \<open>Running the action of a Correction.\<close>

definition runAction ::
  "Deps \<Rightarrow> 'w namecheapProvider \<Rightarrow> action \<Rightarrow> 'w \<Rightarrow> error option \<times> 'w" where
  "runAction x n a w =
     (case a of
        GenerateRecords dc \<Rightarrow> generateRecords x n dc w
      | SetCustom sld tld desired \<Rightarrow>
          (case doWithRetry (DomainDNSSetCustom (client n) sld tld desired) w of
             (Inl err, w', waited) \<Rightarrow> (Some err, w')
           | (Inr u, w', waited) \<Rightarrow> (None, w')))"

section \<open>The diff engine and the reconciliation pass, from the specification\<close>

text \<open>A change pairs the existing record, if any, with the desired record, if any.\<close>

record Correlation =
  Existing :: "RecordConfig option"
  Desired :: "RecordConfig option"

definition sameKeyTarget :: "RecordConfig \<Rightarrow> RecordConfig \<Rightarrow> bool" where
  "sameKeyTarget a b =
     (GetLabel a = GetLabel b \<and> rc_Type a = rc_Type b \<and> GetTargetField a = GetTargetField b)"

definition sortChanges :: "RecordConfig list \<Rightarrow> RecordConfig list" where
  "sortChanges rs = sort_key (\<lambda>r. (GetLabel r, rc_Type r, GetTargetField r)) rs"

text \<open>
  Modelled from the spec: the diff engine \<open>diff.NewCompat(dc).IncrementalDiff\<close>, which is
  not under src/. Records are compared as values (label, type, target, TTL and ancillary
  fields) with set semantics. A desired value absent from the actual set is a create; an
  actual value absent from the desired set is a delete; a value present on both sides with
  the same label, type and target but another TTL or ancillary field is a modify, not a
  create and a delete. Changes are sorted by label, type and target. The engine itself
  reports nothing and does not fail.
\<close>

definition IncrementalDiff_spec :: "DomainConfig \<Rightarrow> RecordConfig list \<Rightarrow> error + Correlation ChangeSet" where
  "IncrementalDiff_spec dc actual =
     (let desired = dc_Records dc;
          newDesired = filter (\<lambda>d. d \<notin> set actual) (sortChanges desired);
          oldActual = filter (\<lambda>a. a \<notin> set desired) (sortChanges actual);
          toCreate = map (\<lambda>d. \<lparr> Existing = None, Desired = Some d \<rparr>)
                       (filter (\<lambda>d. find (sameKeyTarget d) actual = None) newDesired);
          toDelete = map (\<lambda>a. \<lparr> Existing = Some a, Desired = None \<rparr>)
                       (filter (\<lambda>a. find (sameKeyTarget a) desired = None) oldActual);
          toModify = map (\<lambda>d. \<lparr> Existing = find (sameKeyTarget d) actual, Desired = Some d \<rparr>)
                       (filter (\<lambda>d. find (sameKeyTarget d) actual \<noteq> None) newDesired)
      in Inr ([], toCreate, toDelete, toModify,
              int (length toCreate + length toDelete + length toModify)))"

text \<open>Modelled from the spec: \<open>Correlation.String\<close> of package \<open>diff\<close>, which is not
  under src/. Each create, delete or modify is rendered as one line for the changed
  record.\<close>

definition recordLine :: "RecordConfig \<Rightarrow> string" where
  "recordLine r = GetLabel r @ '' '' @ rc_Type r @ '' '' @ GetTargetField r"

definition CorrelationString :: "Correlation \<Rightarrow> string" where
  "CorrelationString c =
     (case (Existing c, Desired c) of
        (None, Some d) \<Rightarrow> ''CREATE '' @ recordLine d
      | (Some a, None) \<Rightarrow> ''DELETE '' @ recordLine a
      | (Some a, Some d) \<Rightarrow> ''MODIFY '' @ recordLine d
      | (None, None) \<Rightarrow> [])"

definition specDiffer :: "Correlation Differ" where
  "specDiffer = \<lparr> IncrementalDiff = IncrementalDiff_spec, Correlation_String = CorrelationString \<rparr>"

text \<open>
  Modelled from the spec: the driver of one reconciliation pass, which is not under src/.
  The actual records are fetched, then diffed against the declaration and planned. A
  failed fetch aborts the pass for the zone.
\<close>

definition reconcile ::
  "Deps \<Rightarrow> 'w namecheapProvider \<Rightarrow> 'c Differ \<Rightarrow> DomainConfig \<Rightarrow> 'w
     \<Rightarrow> (DomainConfig \<times> string list list \<times> (error + Correction list \<times> int)) \<times> 'w" where
  "reconcile x n d dc w =
     (case GetZoneRecords x n (dc_Name dc) Map.empty w of
        (Inl err, w') \<Rightarrow> ((dc, [], Inl err), w')
      | (Inr actual, w') \<Rightarrow> (GetZoneRecordsCorrections d dc actual, w'))"

text \<open>The case normalisation of which the specification of the nameserver comparison
  speaks: ASCII letters in lower case. The provider has no counterpart.\<close>

definition toLowerChar :: "char \<Rightarrow> char" where
  "toLowerChar c =
     (case map_of (zip ''ABCDEFGHIJKLMNOPQRSTUVWXYZ'' ''abcdefghijklmnopqrstuvwxyz'') c of
        None \<Rightarrow> c
      | Some l \<Rightarrow> l)"

definition ToLower :: "string \<Rightarrow> string" where
  "ToLower s = map toLowerChar s"

section \<open>Example inputs\<close>

definition recWWW :: RecordConfig where
  "recWWW = \<lparr> rc_Type = ''A'', rc_TTL = 300, rc_MxPreference = 0, rc_Name = ''www'',
              rc_target = ''192.0.2.1'' \<rparr>"

definition recApexNS :: RecordConfig where
  "recApexNS = \<lparr> rc_Type = ''NS'', rc_TTL = 300, rc_MxPreference = 0, rc_Name = ''@'',
                 rc_target = ''ns1.example.com.'' \<rparr>"

definition recApexDefaultNS :: RecordConfig where
  "recApexDefaultNS = \<lparr> rc_Type = ''NS'', rc_TTL = 300, rc_MxPreference = 0, rc_Name = ''@'',
                        rc_target = ''dns1.registrar-servers.com.'' \<rparr>"

definition zone :: "RecordConfig list \<Rightarrow> DomainConfig" where
  "zone rs = \<lparr> dc_Name = ''example.com'', dc_Records = rs, dc_Nameservers = [] \<rparr>"

definition createWWW :: Correlation where
  "createWWW = \<lparr> Existing = None, Desired = Some recWWW \<rparr>"

definition exampleDeps :: Deps where
  "exampleDeps =
     \<lparr> PublicSuffix = (\<lambda>domain. ''com''),
       EffectiveTLDPlusOne = (\<lambda>domain. domain),
       SetLabel = (\<lambda>name origin r. r\<lparr>rc_Name := name\<rparr>),
       SetTargetMX = (\<lambda>pref target r. Inr (r\<lparr>rc_MxPreference := pref, rc_target := target\<rparr>)),
       SetTarget = (\<lambda>target r. Inr (r\<lparr>rc_target := target\<rparr>)),
       PopulateFromString = (\<lambda>rtype contents origin r. Inr (r\<lparr>rc_target := contents\<rparr>)),
       GetTargetCombined = (\<lambda>r. rc_target r),
       ToNameservers = (\<lambda>nss. Inr (map (\<lambda>ns. \<lparr> ns_Name = ns \<rparr>) nss)) \<rparr>"

definition parkedHosts :: DomainDNSGetHostsResult where
  "parkedHosts =
     \<lparr> Hosts =
         [\<lparr> host_ID = 1, host_Name = ''www'', host_Type = ''CNAME'',
            host_Address = ''parkingpage.namecheap.com.'', host_MXPref = 10, host_TTL = 1800 \<rparr>,
          \<lparr> host_ID = 2, host_Name = ''@'', host_Type = ''URL'',
            host_Address = ''http://www.example.com/'', host_MXPref = 10, host_TTL = 1800 \<rparr>] \<rparr>"

text \<open>A backend without state that always answers with the given hosts and nameservers.\<close>

definition exampleProvider :: "DomainDNSGetHostsResult \<Rightarrow> string list \<Rightarrow> unit namecheapProvider" where
  "exampleProvider hosts nameservers =
     \<lparr> APIKEY = ''key'', APIUser = ''user'',
       client =
         \<lparr> DomainsDNSGetHosts = (\<lambda>sld tld w. (Inr hosts, w)),
           DomainDNSSetHosts = (\<lambda>sld tld recs w. (Inr (), w)),
           DomainGetInfo = (\<lambda>name w. (Inr \<lparr> DNSDetails_Nameservers = nameservers \<rparr>, w)),
           DomainDNSSetCustom = (\<lambda>sld tld ns w. (Inr (), w)) \<rparr> \<rparr>"

definition zoneNS :: "string list \<Rightarrow> DomainConfig" where
  "zoneNS names =
     \<lparr> dc_Name = ''example.com'', dc_Records = [],
       dc_Nameservers = map (\<lambda>ns. \<lparr> ns_Name = ns \<rparr>) names \<rparr>"

section \<open>Properties of the helpers\<close>

lemma HasPrefix_iff: "HasPrefix s p \<longleftrightarrow> (\<exists>r. s = p @ r)"
  by (induction s p rule: HasPrefix.induct) auto

lemma HasSuffix_iff: "HasSuffix s suf \<longleftrightarrow> (\<exists>p. s = p @ suf)"
proof -
  have "(\<exists>r. rev s = rev suf @ r) \<longleftrightarrow> (\<exists>p. s = p @ suf)"
  proof
    assume "\<exists>r. rev s = rev suf @ r"
    then obtain r where "rev s = rev suf @ r" by blast
    then have "rev (rev s) = rev (rev suf @ r)" by simp
    then have "s = rev r @ suf" by simp
    then show "\<exists>p. s = p @ suf" by blast
  next
    assume "\<exists>p. s = p @ suf"
    then obtain p where "s = p @ suf" by blast
    then have "rev s = rev suf @ rev p" by simp
    then show "\<exists>r. rev s = rev suf @ r" by blast
  qed
  then show ?thesis by (simp add: HasSuffix_def HasPrefix_iff)
qed

lemma Contains_iff: "Contains s sub \<longleftrightarrow> (\<exists>p r. s = p @ sub @ r)"
proof (induction s)
  case Nil
  then show ?case by auto
next
  case (Cons c cs)
  show ?case
  proof
    assume "Contains (c # cs) sub"
    then consider "HasPrefix (c # cs) sub" | "Contains cs sub" by auto
    then show "\<exists>p r. c # cs = p @ sub @ r"
    proof cases
      case 1
      then obtain r where "c # cs = sub @ r" by (auto simp: HasPrefix_iff)
      then have "c # cs = [] @ sub @ r" by simp
      then show ?thesis by blast
    next
      case 2
      with Cons.IH obtain p r where "cs = p @ sub @ r" by blast
      then have "c # cs = (c # p) @ sub @ r" by simp
      then show ?thesis by blast
    qed
  next
    assume "\<exists>p r. c # cs = p @ sub @ r"
    then obtain p r where eq: "c # cs = p @ sub @ r" by blast
    show "Contains (c # cs) sub"
    proof (cases p)
      case Nil
      with eq have "HasPrefix (c # cs) sub" by (auto simp: HasPrefix_iff)
      then show ?thesis by simp
    next
      case (Cons a p')
      with eq have "cs = p' @ sub @ r" by simp
      with Cons.IH have "Contains cs sub" by blast
      then show ?thesis by simp
    qed
  qed
qed

section \<open>The retry loop on a sequence of outcomes\<close>


lemma doWithRetry_loop_success:
  "c + k < maxRetries \<Longrightarrow> (\<forall>i<k. rateLimited (outcomes (j + i))) \<Longrightarrow> outcomes (j + k) = Inr v
   \<Longrightarrow> doWithRetry_loop (call_seq outcomes) c w j = (Inr v, Suc (j + k), w + k)"
proof (induction k arbitrary: c w j)
  case 0
  then show ?case
    by (simp add: doWithRetry_loop.simps [of _ c w j] call_seq_def)
next
  case (Suc k)
  from Suc.prems(2) have "rateLimited (outcomes j)" by force
  then obtain err where e: "outcomes j = Inl err" "Contains err rateLimitMarker"
    by (auto simp: rateLimited_def split: sum.splits)
  have rest: "\<forall>i<k. rateLimited (outcomes (Suc j + i))"
    using Suc.prems(2) by (metis Suc_less_eq add_Suc_shift)
  have "doWithRetry_loop (call_seq outcomes) (c + 1) (w + 1) (Suc j) = (Inr v, Suc (Suc j + k), (w + 1) + k)"
    using Suc.prems(1,3) rest by (intro Suc.IH) auto
  moreover have "doWithRetry_loop (call_seq outcomes) c w j
      = doWithRetry_loop (call_seq outcomes) (c + 1) (w + 1) (Suc j)"
    using e Suc.prems(1) by (simp add: doWithRetry_loop.simps [of _ c w j] call_seq_def)
  ultimately show ?case by simp
qed

lemma doWithRetry_loop_exhaust:
  "c + Suc k = maxRetries \<Longrightarrow> (\<forall>i\<le>k. rateLimited (outcomes (j + i)))
   \<Longrightarrow> doWithRetry_loop (call_seq outcomes) c w j = (outcomes (j + k), Suc (j + k), w + k)"
proof (induction k arbitrary: c w j)
  case 0
  then have "rateLimited (outcomes j)" by force
  then obtain err where e: "outcomes j = Inl err" "Contains err rateLimitMarker"
    by (auto simp: rateLimited_def split: sum.splits)
  with 0 show ?case
    by (simp add: doWithRetry_loop.simps [of _ c w j] call_seq_def)
next
  case (Suc k)
  from Suc.prems(2) have "rateLimited (outcomes j)" by force
  then obtain err where e: "outcomes j = Inl err" "Contains err rateLimitMarker"
    by (auto simp: rateLimited_def split: sum.splits)
  have rest: "\<forall>i\<le>k. rateLimited (outcomes (Suc j + i))"
    using Suc.prems(2) by (metis Suc_le_mono add_Suc_shift)
  have "doWithRetry_loop (call_seq outcomes) (c + 1) (w + 1) (Suc j) = (outcomes (Suc j + k), Suc (Suc j + k), (w + 1) + k)"
    using Suc.prems(1) rest by (intro Suc.IH) auto
  moreover have "doWithRetry_loop (call_seq outcomes) c w j
      = doWithRetry_loop (call_seq outcomes) (c + 1) (w + 1) (Suc j)"
    using e Suc.prems(1) by (simp add: doWithRetry_loop.simps [of _ c w j] call_seq_def)
  ultimately show ?case by simp
qed

lemma doWithRetry_loop_no_retry:
  "f s = (Inl err, s') \<Longrightarrow> \<not> Contains err rateLimitMarker \<Longrightarrow> doWithRetry_loop f c w s = (Inl err, s', w)"
  by (simp add: doWithRetry_loop.simps [of f c w s])


lemma Contains_prefix: "Contains (m @ r) m"
  unfolding Contains_iff by (metis append_Nil)

lemma doWithRetry_loop_retries_only_marked:
  "doWithRetry_loop (call_seq outcomes) c w j = (r, n, w') \<Longrightarrow>
     j < n \<and> (\<forall>i. j \<le> i \<and> i < n - 1 \<longrightarrow> rateLimited (outcomes i)) \<and> w' = w + (n - 1 - j) \<and> r = outcomes (n - 1)"
proof (induction "call_seq outcomes" c w j arbitrary: r n w' rule: doWithRetry_loop.induct)
  case (1 c w j)
  show ?case
  proof (cases "outcomes j")
    case (Inr v)
    with "1.prems" show ?thesis
      by (auto simp: doWithRetry_loop.simps [of _ c w j] call_seq_def)
  next
    case (Inl err)
    show ?thesis
    proof (cases "Contains err rateLimitMarker \<and> \<not> maxRetries \<le> c + 1")
      case False
      with Inl "1.prems" show ?thesis
        by (auto simp: doWithRetry_loop.simps [of _ c w j] call_seq_def split: if_splits)
    next
      case True
      with Inl "1.prems" have rec: "doWithRetry_loop (call_seq outcomes) (c + 1) (w + 1) (Suc j) = (r, n, w')"
        by (simp add: doWithRetry_loop.simps [of _ c w j] call_seq_def)
      have ih: "Suc j < n \<and> (\<forall>i. Suc j \<le> i \<and> i < n - 1 \<longrightarrow> rateLimited (outcomes i)) \<and>
          w' = (w + 1) + (n - 1 - Suc j) \<and> r = outcomes (n - 1)"
        using True Inl rec by (intro "1.hyps"[of "Inl err" "Suc j" err]) (auto simp: call_seq_def)
      have rl: "rateLimited (outcomes j)" using True Inl by (simp add: rateLimited_def)
      from ih have "\<forall>i. j \<le> i \<and> i < n - 1 \<longrightarrow> rateLimited (outcomes i)"
        using rl by (metis Suc_leI le_neq_implies_less)
      with ih show ?thesis by auto
    qed
  qed
qed

section \<open>Claims about the retry wrapper\<close>

text \<open>
  Claim C2. For every sequence of outcomes of a backend call: when the call fails with
  the rate-limit marker exactly \<open>k\<close> times and then succeeds, and \<open>k\<close> is below the
  maximum number of attempts (\<open>maxRetries\<close>, 23), the wrapped call succeeds with the
  result of attempt \<open>k + 1\<close>, after \<open>k\<close> waits. When the call fails with the marker on
  each of the first \<open>maxRetries\<close> attempts, the wrapper stops after attempt \<open>maxRetries\<close>
  and the caller observes the error of that last attempt, a rate-limit error.
\<close>

theorem doWithRetry_retry_bound:
  "(k < maxRetries \<and> (\<forall>i<k. rateLimited (outcomes i)) \<and> outcomes k = Inr v
      \<longrightarrow> doWithRetry (call_seq outcomes) 0 = (Inr v, Suc k, k))
   \<and> ((\<forall>i<maxRetries. rateLimited (outcomes i))
      \<longrightarrow> doWithRetry (call_seq outcomes) 0 = (outcomes (maxRetries - 1), maxRetries, maxRetries - 1)
          \<and> rateLimited (outcomes (maxRetries - 1)))"
proof (intro conjI impI)
  assume "k < maxRetries \<and> (\<forall>i<k. rateLimited (outcomes i)) \<and> outcomes k = Inr v"
  then show "doWithRetry (call_seq outcomes) 0 = (Inr v, Suc k, k)"
    using doWithRetry_loop_success [of 0 k outcomes 0 v 0] by (simp add: doWithRetry_def)
next
  assume a: "\<forall>i<maxRetries. rateLimited (outcomes i)"
  have "0 + Suc (maxRetries - 1) = maxRetries" by (simp add: maxRetries_def)
  moreover have "\<forall>i\<le>maxRetries - 1. rateLimited (outcomes (0 + i))"
    using a by (simp add: maxRetries_def)
  ultimately show "doWithRetry (call_seq outcomes) 0 = (outcomes (maxRetries - 1), maxRetries, maxRetries - 1)"
    using doWithRetry_loop_exhaust [of 0 "maxRetries - 1" outcomes 0 0]
    by (simp add: doWithRetry_def maxRetries_def)
next
  assume a: "\<forall>i<maxRetries. rateLimited (outcomes i)"
  then show "rateLimited (outcomes (maxRetries - 1))" by (simp add: maxRetries_def)
qed

theorem doWithRetry_retry_bound_witness:
  "doWithRetry (call_seq (\<lambda>i. if i < 22 then Inl ''unexpected status code from api: 405'' else Inr True)) 0
     = (Inr True, 23, 22)
   \<and> doWithRetry (call_seq (\<lambda>i. (Inl (''unexpected status code from api: 405 #'' @ Itoa i) :: error + bool))) 0
     = (Inl ''unexpected status code from api: 405 #22'', 23, 22)"
proof -
  let ?o1 = "\<lambda>i::nat. if i < 22 then Inl ''unexpected status code from api: 405'' else (Inr True :: error + bool)"
  let ?o2 = "\<lambda>i::nat. (Inl (''unexpected status code from api: 405 #'' @ Itoa i) :: error + bool)"
  have m: "Contains ''unexpected status code from api: 405'' rateLimitMarker"
    by (simp add: rateLimitMarker_def)
  have h1: "(22::nat) < maxRetries \<and> (\<forall>i<22. rateLimited (?o1 i)) \<and> ?o1 22 = Inr True"
    using m by (simp add: maxRetries_def rateLimited_def)
  have "Contains (rateLimitMarker @ '' #'' @ Itoa i) rateLimitMarker" for i
    by (rule Contains_prefix)
  then have h2: "\<forall>i<maxRetries. rateLimited (?o2 i)"
    by (simp add: rateLimited_def rateLimitMarker_def)
  have i22: "Itoa 22 = ''22''" by (simp add: Itoa.simps digit_def)
  from h1 h2 i22 doWithRetry_retry_bound [of 22 ?o1 True] doWithRetry_retry_bound [of 0 ?o2 True]
  show ?thesis by (simp add: maxRetries_def)
qed

text \<open>
  Claim C7. The wrapper retries only on an error that carries the rate-limit marker.
  When the first attempt of any call fails with an error without the marker, the wrapper
  returns that error with the state the one attempt left and without waiting. On a
  sequence of outcomes, every attempt that was followed by another attempt had failed
  with the marker, the number of waits is the number of attempts less one, and the
  outcome returned is that of the last attempt.
\<close>

theorem doWithRetry_no_retry_without_marker:
  "(f s = (Inl err, s') \<and> \<not> Contains err rateLimitMarker \<longrightarrow> doWithRetry f s = (Inl err, s', 0))
   \<and> (doWithRetry (call_seq outcomes) 0 = (r, n, w) \<longrightarrow>
        0 < n \<and> w = n - 1 \<and> r = outcomes (n - 1) \<and> (\<forall>i < n - 1. rateLimited (outcomes i)))"
proof (rule conjI; rule impI)
  assume "f s = (Inl err, s') \<and> \<not> Contains err rateLimitMarker"
  then show "doWithRetry f s = (Inl err, s', 0)"
    by (simp add: doWithRetry_def doWithRetry_loop_no_retry)
next
  assume "doWithRetry (call_seq outcomes) 0 = (r, n, w)"
  then have "doWithRetry_loop (call_seq outcomes) 0 0 0 = (r, n, w)" by (simp add: doWithRetry_def)
  from doWithRetry_loop_retries_only_marked [OF this]
  show "0 < n \<and> w = n - 1 \<and> r = outcomes (n - 1) \<and> (\<forall>i < n - 1. rateLimited (outcomes i))"
    by simp
qed

theorem doWithRetry_no_retry_without_marker_witness:
  "doWithRetry (call_seq (\<lambda>i. if i = 0 then Inl ''unexpected status code from api: 500'' else Inr True)) 0
     = (Inl ''unexpected status code from api: 500'', 1, 0)
   \<and> doWithRetry (call_seq (\<lambda>i. if i < 2 then Inl ''unexpected status code from api: 405'' else Inr True)) 0
     = (Inr True, 3, 2)
   \<and> rateLimited ((\<lambda>i::nat. if i < 2 then Inl ''unexpected status code from api: 405'' else (Inr True :: error + bool)) 1)"
proof -
  let ?e = "''unexpected status code from api: 500''"
  let ?o1 = "\<lambda>i::nat. if i = 0 then Inl ?e else (Inr True :: error + bool)"
  let ?o2 = "\<lambda>i::nat. if i < 2 then Inl ''unexpected status code from api: 405'' else (Inr True :: error + bool)"
  have n: "\<not> Contains ?e rateLimitMarker"
    by (simp add: rateLimitMarker_def)
  have m: "Contains ''unexpected status code from api: 405'' rateLimitMarker"
    by (simp add: rateLimitMarker_def)
  have run: "doWithRetry (call_seq ?o2) 0 = (Inr True, 3, 2)"
    using m by (simp add: doWithRetry_def doWithRetry_loop.simps call_seq_def maxRetries_def)
  have c: "call_seq ?o1 0 = (Inl ?e, 1)"
    by (simp add: call_seq_def)
  note inst = doWithRetry_no_retry_without_marker [of "call_seq ?o1" 0 ?e 1 ?o2 "Inr True" 3 2]
  from inst c n have a: "doWithRetry (call_seq ?o1) 0 = (Inl ?e, 1, 0)" by blast
  from inst run have q: "\<forall>i < 3 - 1. rateLimited (?o2 i)" by blast
  have "(1::nat) < 3 - 1" by simp
  with q have b: "rateLimited (?o2 1)" by blast
  from a run b show ?thesis by blast
qed

section \<open>Properties of the planner\<close>

lemma Filter_loop_apexNSFilter:
  "Filter_loop apexNSFilter rs =
     (filter (\<lambda>r. \<not> (rc_Type r = ''NS'' \<and> GetLabel r = ''@'')) rs,
      map (\<lambda>r. [[CHR 0x0A], GetTargetField r, ''Namecheap does not support changing apex NS records. Skipping.''])
        (filter (\<lambda>r. rc_Type r = ''NS'' \<and> GetLabel r = ''@''
                     \<and> \<not> HasSuffix (GetTargetField r) ''registrar-servers.com.'') rs))"
  by (induction rs) (simp_all add: apexNSFilter_def)

lemma Join_Cons: "Join (x # xs) sep = (if xs = [] then x else x @ sep @ Join xs sep)"
  by (cases xs) simp_all

lemma Join_contains: "x \<in> set xs \<Longrightarrow> \<exists>p r. Join xs sep = p @ x @ r"
proof (induction xs)
  case Nil
  then show ?case by simp
next
  case (Cons y ys)
  show ?case
  proof (cases "x = y")
    case True
    have "Join (y # ys) sep = [] @ x @ (if ys = [] then [] else sep @ Join ys sep)"
      using True by (simp add: Join_Cons)
    then show ?thesis by blast
  next
    case False
    with Cons.prems have "x \<in> set ys" by simp
    with Cons.IH obtain p r where "Join ys sep = p @ x @ r" by blast
    moreover from \<open>x \<in> set ys\<close> have "ys \<noteq> []" by auto
    ultimately have "Join (y # ys) sep = (y @ sep @ p) @ x @ r" by (simp add: Join_Cons)
    then show ?thesis by blast
  qed
qed

lemma Contains_Sprint_strings:
  assumes "x \<in> set xs"
  shows "Contains (pre @ Sprint_strings xs) x"
proof -
  from Join_contains [OF assms] obtain p r where "Join xs '' '' = p @ x @ r" by blast
  then have "pre @ Sprint_strings xs = (pre @ ''['' @ p) @ x @ (r @ '']'')"
    by (simp add: Sprint_strings_def)
  then show ?thesis unfolding Contains_iff by blast
qed

lemma filter_executable_messages:
  "filter executable (GenerateMessageCorrections msgs) = []"
  by (induction msgs) (simp_all add: GenerateMessageCorrections_def executable_def)

lemma GetZoneRecordsCorrections_unfold:
  assumes "Filter apexNSFilter dc = (dc', printed)"
    and "IncrementalDiff d dc' actual = Inr (toReport, toCreate, toDelete, toModify, n)"
  shows "GetZoneRecordsCorrections d dc actual =
     (dc', printed,
      Inr (GenerateMessageCorrections toReport @
           (if toCreate @ toDelete @ toModify = [] then []
            else [\<lparr> Msg = ''GENERATE_ZONE: '' @ dc_Name dc' @ '' ('' @ Itoa (length (dc_Records dc'))
                           @ '' records)''
                           @ Sprint_strings (map (\<lambda>i. [CHR 0x0A] @ Correlation_String d i)
                                               (toCreate @ toDelete @ toModify)),
                     F = Some (GenerateRecords dc') \<rparr>]), n))"
  using assms by (simp add: GetZoneRecordsCorrections_def)


lemma Filter_zone_WWW: "Filter apexNSFilter (zone [recWWW]) = (zone [recWWW], [])"
  by (simp add: Filter_def zone_def recWWW_def apexNSFilter_def)

lemma diff_zone_WWW:
  "IncrementalDiff specDiffer (zone [recWWW]) [] = Inr ([], [createWWW], [], [], 1)"
  by (simp add: specDiffer_def IncrementalDiff_spec_def zone_def sortChanges_def createWWW_def)


lemma diff_empty: "IncrementalDiff specDiffer (zone []) [] = Inr ([], [], [], [], 0)"
  by (simp add: specDiffer_def IncrementalDiff_spec_def zone_def sortChanges_def)

lemma CorrelationString_createWWW: "Correlation_String specDiffer createWWW = ''CREATE www A 192.0.2.1''"
  by (simp add: specDiffer_def CorrelationString_def createWWW_def recordLine_def GetLabel_def GetTargetField_def recWWW_def)

lemma Itoa_1: "Itoa (Suc 0) = ''1''"
  by (simp add: Itoa.simps digit_def)

lemma GetZoneRecordsCorrections_zone_WWW: "GetZoneRecordsCorrections specDiffer (zone [recWWW]) [] = 
  (zone [recWWW], [], Inr ([\<lparr> Msg = ''GENERATE_ZONE: example.com (1 records)['' @ [CHR 0x0A] @ ''CREATE www A 192.0.2.1]'',
      F = Some (GenerateRecords (zone [recWWW])) \<rparr>], 1))"
  using GetZoneRecordsCorrections_unfold [OF Filter_zone_WWW diff_zone_WWW]
  by (simp add: GenerateMessageCorrections_def Sprint_strings_def CorrelationString_createWWW Itoa_1 zone_def)



lemma Filter_apexNSFilter:
  "Filter apexNSFilter dc =
     (dc\<lparr>dc_Records := filter (\<lambda>r. \<not> (rc_Type r = ''NS'' \<and> GetLabel r = ''@'')) (dc_Records dc)\<rparr>,
      map (\<lambda>r. [[CHR 0x0A], GetTargetField r, ''Namecheap does not support changing apex NS records. Skipping.''])
        (filter (\<lambda>r. rc_Type r = ''NS'' \<and> GetLabel r = ''@''
                     \<and> \<not> HasSuffix (GetTargetField r) ''registrar-servers.com.'') (dc_Records dc)))"
  by (simp add: Filter_def Filter_loop_apexNSFilter)

lemma Filter_apexNSFilter_filtered:
  "Filter apexNSFilter (dc\<lparr>dc_Records := filter (\<lambda>r. \<not> (rc_Type r = ''NS'' \<and> GetLabel r = ''@'')) rs\<rparr>) =
     (dc\<lparr>dc_Records := filter (\<lambda>r. \<not> (rc_Type r = ''NS'' \<and> GetLabel r = ''@'')) rs\<rparr>, [])"
proof -
  have "filter (\<lambda>r. rc_Type r = ''NS'' \<and> GetLabel r = ''@'' \<and> \<not> HasSuffix (GetTargetField r) ''registrar-servers.com.'')
          (filter (\<lambda>r. \<not> (rc_Type r = ''NS'' \<and> GetLabel r = ''@'')) rs) = []"
    by (induction rs) auto
  then show ?thesis
    by (simp add: Filter_apexNSFilter)
qed

lemma GetZoneRecordsCorrections_Filter:
  assumes "Filter apexNSFilter dc = (dc', printed)"
  shows "GetZoneRecordsCorrections d dc actual =
     (dc', printed, 
      case IncrementalDiff d dc' actual of
        Inl err \<Rightarrow> Inl err
      | Inr (toReport, toCreate, toDelete, toModify, actualChangeCount) \<Rightarrow>
          Inr (GenerateMessageCorrections toReport @
           (if toCreate @ toDelete @ toModify = [] then []
            else [\<lparr> Msg = ''GENERATE_ZONE: '' @ dc_Name dc' @ '' ('' @ Itoa (length (dc_Records dc'))
                           @ '' records)''
                           @ Sprint_strings (map (\<lambda>i. [CHR 0x0A] @ Correlation_String d i)
                                               (toCreate @ toDelete @ toModify)),
                     F = Some (GenerateRecords dc') \<rparr>]), actualChangeCount))"
  using assms by (simp add: GetZoneRecordsCorrections_def split: sum.splits prod.splits)


section \<open>Claims about the planner\<close>

text \<open>
  Claim C1. The provider is a bundle-only backend. For every declaration and actual record
  set, whatever the diff engine computes: when the ChangeSet (\<open>toCreate\<close>, \<open>toDelete\<close>,
  \<open>toModify\<close>) is not empty, \<open>GetZoneRecordsCorrections\<close> returns exactly one executable
  Correction, whose action regenerates the zone and whose message contains the line of
  every create, delete and modify entry; when the ChangeSet is empty it returns no
  executable Correction.
\<close>

theorem GetZoneRecordsCorrections_bundle:
  assumes "Filter apexNSFilter dc = (dc', printed)"
    and "IncrementalDiff d dc' actual = Inr (toReport, toCreate, toDelete, toModify, n)"
  shows "\<exists>corrections.
     GetZoneRecordsCorrections d dc actual = (dc', printed, Inr (corrections, n)) \<and>
     (toCreate @ toDelete @ toModify = [] \<longrightarrow> filter executable corrections = []) \<and>
     (toCreate @ toDelete @ toModify \<noteq> [] \<longrightarrow>
        (\<exists>c. filter executable corrections = [c] \<and> F c = Some (GenerateRecords dc') \<and>
             (\<forall>i \<in> set (toCreate @ toDelete @ toModify).
                Contains (Msg c) ([CHR 0x0A] @ Correlation_String d i))))"
proof -
  let ?changes = "toCreate @ toDelete @ toModify"
  let ?desc = "map (\<lambda>i. [CHR 0x0A] @ Correlation_String d i) ?changes"
  let ?pre = "''GENERATE_ZONE: '' @ dc_Name dc' @ '' ('' @ Itoa (length (dc_Records dc')) @ '' records)''"
  let ?c = "\<lparr> Msg = ?pre @ Sprint_strings ?desc, F = Some (GenerateRecords dc') \<rparr>"
  let ?corrections = "GenerateMessageCorrections toReport @ (if ?changes = [] then [] else [?c])"
  have res: "GetZoneRecordsCorrections d dc actual = (dc', printed, Inr (?corrections, n))"
    using GetZoneRecordsCorrections_unfold [OF assms] by simp
  have none: "?changes = [] \<longrightarrow> filter executable ?corrections = []"
    by (simp add: filter_executable_messages)
  have one: "filter executable ?corrections = [?c]" if "?changes \<noteq> []"
    using that by (simp add: filter_executable_messages executable_def)
  have enum: "Contains (Msg ?c) ([CHR 0x0A] @ Correlation_String d i)" if "i \<in> set ?changes" for i
  proof -
    from that have "[CHR 0x0A] @ Correlation_String d i \<in> set ?desc" by (simp add: image_iff) blast
    from Contains_Sprint_strings [OF this, of ?pre] show ?thesis by simp
  qed
  have "?changes \<noteq> [] \<longrightarrow>
        (\<exists>c. filter executable ?corrections = [c] \<and> F c = Some (GenerateRecords dc') \<and>
             (\<forall>i \<in> set ?changes. Contains (Msg c) ([CHR 0x0A] @ Correlation_String d i)))"
  proof
    assume ne: "?changes \<noteq> []"
    have "filter executable ?corrections = [?c] \<and> F ?c = Some (GenerateRecords dc') \<and>
             (\<forall>i \<in> set ?changes. Contains (Msg ?c) ([CHR 0x0A] @ Correlation_String d i))"
      using one [OF ne] enum by simp
    then show "\<exists>c. filter executable ?corrections = [c] \<and> F c = Some (GenerateRecords dc') \<and>
             (\<forall>i \<in> set ?changes. Contains (Msg c) ([CHR 0x0A] @ Correlation_String d i))"
      by blast
  qed
  with res none show ?thesis by blast
qed

theorem GetZoneRecordsCorrections_bundle_witness:
  "Filter apexNSFilter (zone [recWWW]) = (zone [recWWW], []) \<and>
   IncrementalDiff specDiffer (zone [recWWW]) [] = Inr ([], [createWWW], [], [], 1) \<and>
   (\<exists>corrections c.
      GetZoneRecordsCorrections specDiffer (zone [recWWW]) [] = (zone [recWWW], [], Inr (corrections, 1)) \<and>
      filter executable corrections = [c] \<and> F c = Some (GenerateRecords (zone [recWWW])) \<and>
      Contains (Msg c) ([CHR 0x0A] @ Correlation_String specDiffer createWWW)) \<and>
   IncrementalDiff specDiffer (zone []) [] = Inr ([], [], [], [], 0) \<and>
   (\<exists>corrections.
      GetZoneRecordsCorrections specDiffer (zone []) [] = (zone [], [], Inr (corrections, 0)) \<and>
      filter executable corrections = [])"
proof -
  have f0: "Filter apexNSFilter (zone []) = (zone [], [])"
    by (simp add: Filter_def zone_def)
  from GetZoneRecordsCorrections_bundle [OF Filter_zone_WWW diff_zone_WWW]
  have a: "\<exists>corrections c.
      GetZoneRecordsCorrections specDiffer (zone [recWWW]) [] = (zone [recWWW], [], Inr (corrections, 1)) \<and>
      filter executable corrections = [c] \<and> F c = Some (GenerateRecords (zone [recWWW])) \<and>
      Contains (Msg c) ([CHR 0x0A] @ Correlation_String specDiffer createWWW)"
    by simp
  from GetZoneRecordsCorrections_bundle [OF f0 diff_empty]
  have b: "\<exists>corrections.
      GetZoneRecordsCorrections specDiffer (zone []) [] = (zone [], [], Inr (corrections, 0)) \<and>
      filter executable corrections = []"
    by simp
  from Filter_zone_WWW diff_zone_WWW a diff_empty b show ?thesis by blast
qed


text \<open>
  Claim C3, amended. A desired NS record at the apex label is removed from the declaration
  before the diff, so it contributes no create, delete or modify and no Correction of any
  kind: the result is the one planned for the declaration without its apex NS records.
  For each apex NS record whose target does not end in \<open>registrar-servers.com.\<close> the call
  prints one notice on the console; the notice is not returned as a Correction. An apex
  NS record whose target ends so is removed without a notice.
\<close>

theorem GetZoneRecordsCorrections_apexNS:
  "GetZoneRecordsCorrections d dc actual =
     (dc\<lparr>dc_Records := filter (\<lambda>r. \<not> (rc_Type r = ''NS'' \<and> GetLabel r = ''@'')) (dc_Records dc)\<rparr>,
      map (\<lambda>r. [[CHR 0x0A], GetTargetField r, ''Namecheap does not support changing apex NS records. Skipping.''])
        (filter (\<lambda>r. rc_Type r = ''NS'' \<and> GetLabel r = ''@''
                     \<and> \<not> HasSuffix (GetTargetField r) ''registrar-servers.com.'') (dc_Records dc)),
      snd (snd (GetZoneRecordsCorrections d 
        (dc\<lparr>dc_Records := filter (\<lambda>r. \<not> (rc_Type r = ''NS'' \<and> GetLabel r = ''@'')) (dc_Records dc)\<rparr>) actual)))"
proof -
  let ?dc' = "dc\<lparr>dc_Records := filter (\<lambda>r. \<not> (rc_Type r = ''NS'' \<and> GetLabel r = ''@'')) (dc_Records dc)\<rparr>"
  note a = GetZoneRecordsCorrections_Filter [OF Filter_apexNSFilter [of dc], of d actual]
  note b = GetZoneRecordsCorrections_Filter [OF Filter_apexNSFilter_filtered [where dc = dc and rs = "dc_Records dc"], of d actual]
  show ?thesis
    by (simp only: a b snd_conv)
qed

theorem GetZoneRecordsCorrections_apexNS_witness:
  "GetZoneRecordsCorrections specDiffer (zone [recApexNS, recWWW, recApexDefaultNS]) [] =
     (zone [recWWW],
      [[[CHR 0x0A], ''ns1.example.com.'', ''Namecheap does not support changing apex NS records. Skipping.'']],
      snd (snd (GetZoneRecordsCorrections specDiffer (zone [recWWW]) [])))"
  using GetZoneRecordsCorrections_apexNS [of specDiffer "zone [recApexNS, recWWW, recApexDefaultNS]" "[]"]
  by (simp add: zone_def recWWW_def recApexNS_def recApexDefaultNS_def GetLabel_def GetTargetField_def HasSuffix_def)

text \<open>
  Claim C3 as stated fails: for a declaration whose only record is an apex NS record with
  target \<open>ns1.example.com.\<close> and an empty zone, the notice is printed and the list of
  Corrections returned is empty, so no non-executable Correction carries the notice.
\<close>

theorem GetZoneRecordsCorrections_apexNS_counterexample:
  "rc_Type recApexNS = ''NS'' \<and> GetLabel recApexNS = ''@'' \<and>
   \<not> HasSuffix (GetTargetField recApexNS) ''registrar-servers.com.'' \<and>
   GetZoneRecordsCorrections specDiffer (zone [recApexNS]) [] =
     (zone [],
      [[[CHR 0x0A], ''ns1.example.com.'', ''Namecheap does not support changing apex NS records. Skipping.'']],
      Inr ([], 0))"
proof -
  have f: "Filter apexNSFilter (zone [recApexNS]) = (zone [],
      [[[CHR 0x0A], ''ns1.example.com.'', ''Namecheap does not support changing apex NS records. Skipping.'']])"
    by (simp add: Filter_def zone_def recApexNS_def apexNSFilter_def GetLabel_def GetTargetField_def HasSuffix_def)
  have "GetZoneRecordsCorrections specDiffer (zone [recApexNS]) [] =
     (zone [],
      [[[CHR 0x0A], ''ns1.example.com.'', ''Namecheap does not support changing apex NS records. Skipping.'']],
      Inr ([], 0))"
    using GetZoneRecordsCorrections_unfold [OF f diff_empty]
    by (simp add: GenerateMessageCorrections_def)
  then show ?thesis
    by (simp add: recApexNS_def GetLabel_def GetTargetField_def HasSuffix_def)
qed


text \<open>
  Claim C4, amended. \<open>GetZoneRecordsCorrections\<close> leaves in the declaration the desired
  records without the apex NS records, in their order; name and nameservers are
  unchanged. A declaration without apex NS records is left as it was.
\<close>

theorem GetZoneRecordsCorrections_declaration:
  "fst (GetZoneRecordsCorrections d dc actual) =
     dc\<lparr>dc_Records := filter (\<lambda>r. \<not> (rc_Type r = ''NS'' \<and> GetLabel r = ''@'')) (dc_Records dc)\<rparr>
   \<and> ((\<forall>r \<in> set (dc_Records dc). \<not> (rc_Type r = ''NS'' \<and> GetLabel r = ''@''))
        \<longrightarrow> fst (GetZoneRecordsCorrections d dc actual) = dc)"
proof -
  have a: "fst (GetZoneRecordsCorrections d dc actual) =
     dc\<lparr>dc_Records := filter (\<lambda>r. \<not> (rc_Type r = ''NS'' \<and> GetLabel r = ''@'')) (dc_Records dc)\<rparr>"
    by (simp add: GetZoneRecordsCorrections_Filter [OF Filter_apexNSFilter])
  have "filter (\<lambda>r. \<not> (rc_Type r = ''NS'' \<and> GetLabel r = ''@'')) (dc_Records dc) = dc_Records dc"
    if "\<forall>r \<in> set (dc_Records dc). \<not> (rc_Type r = ''NS'' \<and> GetLabel r = ''@'')"
    using that by (simp add: filter_id_conv)
  with a show ?thesis by simp
qed

theorem GetZoneRecordsCorrections_declaration_witness:
  "fst (GetZoneRecordsCorrections specDiffer (zone [recWWW]) []) = zone [recWWW] \<and>
   fst (GetZoneRecordsCorrections specDiffer (zone [recWWW, recApexDefaultNS]) []) = zone [recWWW]"
  using GetZoneRecordsCorrections_declaration [of specDiffer "zone [recWWW]" "[]"]
    GetZoneRecordsCorrections_declaration [of specDiffer "zone [recWWW, recApexDefaultNS]" "[]"]
  by (simp add: zone_def recWWW_def recApexDefaultNS_def GetLabel_def)

text \<open>
  Claim C4 as stated fails: after the call on a declaration with an apex NS record, the
  desired records differ from those before the call.
\<close>

theorem GetZoneRecordsCorrections_declaration_counterexample:
  "dc_Records (fst (GetZoneRecordsCorrections specDiffer (zone [recApexNS, recWWW]) []))
     \<noteq> dc_Records (zone [recApexNS, recWWW])"
proof -
  have f: "Filter apexNSFilter (zone [recApexNS, recWWW]) = (zone [recWWW],
      [[[CHR 0x0A], ''ns1.example.com.'', ''Namecheap does not support changing apex NS records. Skipping.'']])"
    by (simp add: Filter_def zone_def recApexNS_def recWWW_def apexNSFilter_def GetLabel_def GetTargetField_def HasSuffix_def)
  have "fst (GetZoneRecordsCorrections specDiffer (zone [recApexNS, recWWW]) []) = zone [recWWW]"
    by (simp add: GetZoneRecordsCorrections_Filter [OF f])
  then show ?thesis
    by (simp add: zone_def)
qed

section \<open>Properties of fetching, the diff engine and the registrar role\<close>

lemma GetZoneRecords_parkingRecords:
  assumes "splitDomain x domain = (sld, tld)"
    and "doWithRetry (DomainsDNSGetHosts (client n) sld tld) w = (Inr records, w', waited)"
    and "parkingRecords records"
  shows "GetZoneRecords x n domain meta w = (Inr [], w')"
  using assms by (simp add: GetZoneRecords_def)

lemma exampleProvider_fetch:
  "doWithRetry (DomainsDNSGetHosts (client (exampleProvider hosts nss)) sld tld) () = (Inr hosts, (), 0)"
  by (simp add: doWithRetry_def doWithRetry_loop.simps exampleProvider_def)

lemma exampleProvider_info:
  "doWithRetry (DomainGetInfo (client (exampleProvider hosts nss)) name) ()
     = (Inr \<lparr> DNSDetails_Nameservers = nss \<rparr>, (), 0)"
  by (simp add: doWithRetry_def doWithRetry_loop.simps exampleProvider_def)

lemma splitDomain_example: "splitDomain exampleDeps ''example.com'' = (''example'', ''com'')"
  by (simp add: splitDomain_def exampleDeps_def)

lemma parkingRecords_parkedHosts: "parkingRecords parkedHosts"
  by (simp add: parkingRecords_def parkedHosts_def)


lemma IncrementalDiff_spec_same:
  "IncrementalDiff_spec dc (dc_Records dc) = Inr ([], [], [], [], 0)"
  by (simp add: IncrementalDiff_spec_def sortChanges_def)

lemma IncrementalDiff_spec_empty:
  "dc_Records dc = [] \<Longrightarrow> IncrementalDiff_spec dc [] = Inr ([], [], [], [], 0)"
  using IncrementalDiff_spec_same [of dc] by simp

lemma Filter_apexNSFilter_empty:
  "dc_Records dc = [] \<Longrightarrow> Filter apexNSFilter dc = (dc, [])"
  by (simp add: Filter_def)


lemma sort_mset_eq: "mset xs = mset ys \<Longrightarrow> sort xs = sort (ys :: string list)"
  by (rule properties_for_sort) simp_all

lemma SplitN_dot_2_dot:
  "CHR ''.'' \<in> set s \<Longrightarrow>
     SplitN_dot_2 s = [takeWhile (\<lambda>c. c \<noteq> CHR ''.'') s, tl (dropWhile (\<lambda>c. c \<noteq> CHR ''.'') s)]"
proof -
  assume "CHR ''.'' \<in> set s"
  then have "dropWhile (\<lambda>c. c \<noteq> CHR ''.'') s \<noteq> []"
    by (auto simp: dropWhile_eq_Nil_conv)
  then show ?thesis
    by (simp add: SplitN_dot_2_def split: list.splits)
qed

lemma SplitN_dot_2_no_dot:
  "CHR ''.'' \<notin> set s \<Longrightarrow> SplitN_dot_2 s = [s]"
proof -
  assume "CHR ''.'' \<notin> set s"
  then have h: "dropWhile (\<lambda>c. c \<noteq> CHR ''.'') s = []"
    by (auto simp: dropWhile_eq_Nil_conv)
  show ?thesis
    unfolding SplitN_dot_2_def h by simp
qed

lemma GetRegistrarCorrections_fetched:
  assumes "doWithRetry (DomainGetInfo (client n) (dc_Name dc)) w = (Inr info, w', waited)"
  shows "GetRegistrarCorrections n dc w =
     (let found = Join (sort (DNSDetails_Nameservers info)) '','';
          desired = Join (sort (map ns_Name (dc_Nameservers dc))) '',''
      in if found \<noteq> desired then
           (if length (SplitN_dot_2 (dc_Name dc)) < 2 then (Inl PanicIndexOutOfRange, w')
            else (Inr [\<lparr> Msg = ''Change Nameservers from '' @ [CHR 0x27] @ found @ [CHR 0x27]
                                   @ '' to '' @ [CHR 0x27] @ desired @ [CHR 0x27],
                          F = Some (SetCustom (SplitN_dot_2 (dc_Name dc) ! 0) (SplitN_dot_2 (dc_Name dc) ! 1) desired) \<rparr>], w'))
         else (Inr [], w'))"
  using assms by (simp add: GetRegistrarCorrections_def Let_def)

lemma GetRegistrarCorrections_no_dot:
  assumes "doWithRetry (DomainGetInfo (client n) (dc_Name dc)) w = (Inr info, w', waited)"
    and "Join (sort (DNSDetails_Nameservers info)) '','' \<noteq> Join (sort (map ns_Name (dc_Nameservers dc))) '',''"
    and "CHR ''.'' \<notin> set (dc_Name dc)"
  shows "GetRegistrarCorrections n dc w = (Inl PanicIndexOutOfRange, w')"
  using assms(2,3) by (simp add: GetRegistrarCorrections_fetched [OF assms(1)] Let_def SplitN_dot_2_no_dot)


section \<open>Claims about fetching the zone\<close>




text \<open>
  Claim C5. When the desired record set is empty and the fetched snapshot is the
  two-record placeholder pattern, the reconciliation pass computes an empty ChangeSet and
  returns no Correction.
\<close>

theorem reconcile_placeholder:
  assumes "dc_Records dc = []"
    and "splitDomain x (dc_Name dc) = (sld, tld)"
    and "doWithRetry (DomainsDNSGetHosts (client n) sld tld) w = (Inr records, w', waited)"
    and "length (Hosts records) = 2"
    and "host_Type (Hosts records ! 0) = ''CNAME''"
    and "Contains (host_Address (Hosts records ! 0)) ''parkingpage''"
    and "host_Type (Hosts records ! 1) = ''URL''"
  shows "IncrementalDiff specDiffer dc [] = Inr ([], [], [], [], 0) \<and>
         reconcile x n specDiffer dc w = ((dc, [], Inr ([], 0)), w')"
proof -
  have park: "parkingRecords records"
    using assms(4-7) by (simp add: parkingRecords_def)
  have fetch: "GetZoneRecords x n (dc_Name dc) Map.empty w = (Inr [], w')"
    by (rule GetZoneRecords_parkingRecords [OF assms(2,3) park])
  have d: "IncrementalDiff specDiffer dc [] = Inr ([], [], [], [], 0)"
    using assms(1) by (simp add: specDiffer_def IncrementalDiff_spec_empty)
  have "GetZoneRecordsCorrections specDiffer dc [] = (dc, [], Inr ([], 0))"
    using GetZoneRecordsCorrections_unfold [OF Filter_apexNSFilter_empty [OF assms(1)] d]
    by (simp add: GenerateMessageCorrections_def)
  with fetch d show ?thesis by (simp add: reconcile_def)
qed

theorem reconcile_placeholder_witness:
  "reconcile exampleDeps (exampleProvider parkedHosts []) specDiffer (zone []) ()
     = ((zone [], [], Inr ([], 0)), ())"
proof -
  have p: "length (Hosts parkedHosts) = 2" "host_Type (Hosts parkedHosts ! 0) = ''CNAME''"
    "Contains (host_Address (Hosts parkedHosts ! 0)) ''parkingpage''"
    "host_Type (Hosts parkedHosts ! 1) = ''URL''"
    by (simp_all add: parkedHosts_def)
  have e: "dc_Records (zone []) = []" by (simp add: zone_def)
  have s: "splitDomain exampleDeps (dc_Name (zone [])) = (''example'', ''com'')"
    by (simp add: zone_def splitDomain_example)
  from reconcile_placeholder [OF e s exampleProvider_fetch p]
  show ?thesis by simp
qed


section \<open>Claims about idempotence\<close>




section \<open>Claims about the registrar role\<close>

text \<open>
  Claim C10. \<open>GetNameservers\<close> is constant: for every domain name and provider handle it
  returns the conversion of the two default nameservers \<open>dns1.registrar-servers.com\<close> and
  \<open>dns2.registrar-servers.com\<close>. It makes no backend call: the backend state is not among
  its arguments. With the conversion that wraps each name, the result is exactly the two
  default nameservers.
\<close>

theorem GetNameservers_constant:
  "GetNameservers x n domainName
     = ToNameservers x [''dns1.registrar-servers.com'', ''dns2.registrar-servers.com''] \<and>
   GetNameservers x n domainName = GetNameservers x n' domainName' \<and>
   GetNameservers (x\<lparr>ToNameservers := \<lambda>nss. Inr (map (\<lambda>ns. \<lparr> ns_Name = ns \<rparr>) nss)\<rparr>) n domainName
     = Inr [\<lparr> ns_Name = ''dns1.registrar-servers.com'' \<rparr>, \<lparr> ns_Name = ''dns2.registrar-servers.com'' \<rparr>]"
  by (simp add: GetNameservers_def NamecheapDefaultNs_def)

text \<open>
  Claim C6, amended. \<open>GetRegistrarCorrections\<close> sorts the current and the desired
  nameserver names by bytes, case-sensitively, and joins each list with commas. When the
  joined strings are equal, in particular when the two lists are equal up to order, it
  returns no Correction. When they differ and the domain name contains a dot, it returns
  exactly one Correction, whose message names the old and the new joined string and whose
  action submits the desired joined string through \<open>DomainDNSSetCustom\<close> under the retry
  wrapper.
\<close>

theorem GetRegistrarCorrections_nameservers:
  assumes "doWithRetry (DomainGetInfo (client n) (dc_Name dc)) w = (Inr info, w', waited)"
    and "found = Join (sort (DNSDetails_Nameservers info)) '',''"
    and "desired = Join (sort (map ns_Name (dc_Nameservers dc))) '',''"
  shows "(found = desired \<longrightarrow> GetRegistrarCorrections n dc w = (Inr [], w')) \<and>
         (mset (DNSDetails_Nameservers info) = mset (map ns_Name (dc_Nameservers dc))
            \<longrightarrow> GetRegistrarCorrections n dc w = (Inr [], w')) \<and>
         (found \<noteq> desired \<and> CHR ''.'' \<in> set (dc_Name dc) \<longrightarrow>
            GetRegistrarCorrections n dc w =
              (Inr [\<lparr> Msg = ''Change Nameservers from '' @ [CHR 0x27] @ found @ [CHR 0x27]
                             @ '' to '' @ [CHR 0x27] @ desired @ [CHR 0x27],
                       F = Some (SetCustom (takeWhile (\<lambda>c. c \<noteq> CHR ''.'') (dc_Name dc))
                                           (tl (dropWhile (\<lambda>c. c \<noteq> CHR ''.'') (dc_Name dc)))
                                           desired) \<rparr>], w')) \<and>
         runAction x n (SetCustom sld tld desired) v =
           (case doWithRetry (DomainDNSSetCustom (client n) sld tld desired) v of
              (Inl err, v', k) \<Rightarrow> (Some err, v')
            | (Inr u, v', k) \<Rightarrow> (None, v'))"
proof -
  note r = GetRegistrarCorrections_fetched [OF assms(1)]
  have a: "found = desired \<longrightarrow> GetRegistrarCorrections n dc w = (Inr [], w')"
    using assms(2,3) by (simp add: r Let_def)
  have b: "mset (DNSDetails_Nameservers info) = mset (map ns_Name (dc_Nameservers dc))
            \<longrightarrow> GetRegistrarCorrections n dc w = (Inr [], w')"
  proof
    assume "mset (DNSDetails_Nameservers info) = mset (map ns_Name (dc_Nameservers dc))"
    then have "sort (DNSDetails_Nameservers info) = sort (map ns_Name (dc_Nameservers dc))"
      by (rule sort_mset_eq)
    then show "GetRegistrarCorrections n dc w = (Inr [], w')"
      by (simp add: r Let_def)
  qed
  have c: "found \<noteq> desired \<and> CHR ''.'' \<in> set (dc_Name dc) \<longrightarrow>
            GetRegistrarCorrections n dc w =
              (Inr [\<lparr> Msg = ''Change Nameservers from '' @ [CHR 0x27] @ found @ [CHR 0x27]
                             @ '' to '' @ [CHR 0x27] @ desired @ [CHR 0x27],
                       F = Some (SetCustom (takeWhile (\<lambda>c. c \<noteq> CHR ''.'') (dc_Name dc))
                                           (tl (dropWhile (\<lambda>c. c \<noteq> CHR ''.'') (dc_Name dc)))
                                           desired) \<rparr>], w')"
    using assms(2,3) by (simp add: r Let_def SplitN_dot_2_dot)
  have d: "runAction x n (SetCustom sld tld desired) v =
           (case doWithRetry (DomainDNSSetCustom (client n) sld tld desired) v of
              (Inl err, v', k) \<Rightarrow> (Some err, v')
            | (Inr u, v', k) \<Rightarrow> (None, v'))"
    by (simp add: runAction_def)
  from a b c d show ?thesis by blast
qed


theorem GetRegistrarCorrections_nameservers_witness:
  "GetRegistrarCorrections (exampleProvider parkedHosts [''ns2.example.com'', ''ns1.example.com''])
     (zoneNS [''ns1.example.com'', ''ns2.example.com'']) () = (Inr [], ()) \<and>
   GetRegistrarCorrections (exampleProvider parkedHosts [''ns2.example.com'', ''ns1.example.com''])
     (zoneNS [''ns1.example.com'', ''ns3.example.com'']) ()
     = (Inr [\<lparr> Msg = ''Change Nameservers from '' @ [CHR 0x27] @ ''ns1.example.com,ns2.example.com''
                     @ [CHR 0x27] @ '' to '' @ [CHR 0x27] @ ''ns1.example.com,ns3.example.com'' @ [CHR 0x27],
               F = Some (SetCustom ''example'' ''com'' ''ns1.example.com,ns3.example.com'') \<rparr>], ())"
proof -
  let ?n = "exampleProvider parkedHosts [''ns2.example.com'', ''ns1.example.com'']"
  let ?info = "\<lparr> DNSDetails_Nameservers = [''ns2.example.com'', ''ns1.example.com''] \<rparr>"
  have found: "''ns1.example.com,ns2.example.com'' = Join (sort (DNSDetails_Nameservers ?info)) '',''"
    by simp
  have d1: "''ns1.example.com,ns2.example.com''
      = Join (sort (map ns_Name (dc_Nameservers (zoneNS [''ns1.example.com'', ''ns2.example.com''])))) '',''"
    by (simp add: zoneNS_def)
  have d2: "''ns1.example.com,ns3.example.com''
      = Join (sort (map ns_Name (dc_Nameservers (zoneNS [''ns1.example.com'', ''ns3.example.com''])))) '',''"
    by (simp add: zoneNS_def)
  have dot: "CHR ''.'' \<in> set (dc_Name (zoneNS [''ns1.example.com'', ''ns3.example.com'']))"
    by (simp add: zoneNS_def)
  have parts: "takeWhile (\<lambda>c. c \<noteq> CHR ''.'') (dc_Name (zoneNS [''ns1.example.com'', ''ns3.example.com''])) = ''example''"
    "tl (dropWhile (\<lambda>c. c \<noteq> CHR ''.'') (dc_Name (zoneNS [''ns1.example.com'', ''ns3.example.com'']))) = ''com''"
    by (simp_all add: zoneNS_def)
  have ne: "''ns1.example.com,ns2.example.com'' \<noteq> ''ns1.example.com,ns3.example.com''"
    by simp
  from GetRegistrarCorrections_nameservers [OF exampleProvider_info found d1]
  have a: "GetRegistrarCorrections ?n (zoneNS [''ns1.example.com'', ''ns2.example.com'']) () = (Inr [], ())"
    by blast
  from GetRegistrarCorrections_nameservers [OF exampleProvider_info found d2] ne dot
  have "GetRegistrarCorrections ?n (zoneNS [''ns1.example.com'', ''ns3.example.com'']) ()
     = (Inr [\<lparr> Msg = ''Change Nameservers from '' @ [CHR 0x27] @ ''ns1.example.com,ns2.example.com''
                     @ [CHR 0x27] @ '' to '' @ [CHR 0x27] @ ''ns1.example.com,ns3.example.com'' @ [CHR 0x27],
               F = Some (SetCustom (takeWhile (\<lambda>c. c \<noteq> CHR ''.'') (dc_Name (zoneNS [''ns1.example.com'', ''ns3.example.com''])))
                    (tl (dropWhile (\<lambda>c. c \<noteq> CHR ''.'') (dc_Name (zoneNS [''ns1.example.com'', ''ns3.example.com'']))))
                    ''ns1.example.com,ns3.example.com'') \<rparr>], ())"
    by blast
  then have b: "GetRegistrarCorrections ?n (zoneNS [''ns1.example.com'', ''ns3.example.com'']) ()
     = (Inr [\<lparr> Msg = ''Change Nameservers from '' @ [CHR 0x27] @ ''ns1.example.com,ns2.example.com''
                     @ [CHR 0x27] @ '' to '' @ [CHR 0x27] @ ''ns1.example.com,ns3.example.com'' @ [CHR 0x27],
               F = Some (SetCustom ''example'' ''com'' ''ns1.example.com,ns3.example.com'') \<rparr>], ())"
    by (simp only: parts)
  from a b show ?thesis by blast
qed


text \<open>
  Claim C6 as stated fails: the comparison is not case-normalised. The current list
  \<open>NS1.EXAMPLE.COM\<close> and the desired list \<open>ns1.example.com\<close> are equal after case
  normalisation, and one Correction is returned.
\<close>

theorem GetRegistrarCorrections_case_counterexample:
  "map ToLower [''NS1.EXAMPLE.COM''] = map ToLower [''ns1.example.com''] \<and>
   GetRegistrarCorrections (exampleProvider parkedHosts [''NS1.EXAMPLE.COM'']) (zoneNS [''ns1.example.com'']) ()
     = (Inr [\<lparr> Msg = ''Change Nameservers from '' @ [CHR 0x27] @ ''NS1.EXAMPLE.COM''
                     @ [CHR 0x27] @ '' to '' @ [CHR 0x27] @ ''ns1.example.com'' @ [CHR 0x27],
               F = Some (SetCustom ''example'' ''com'' ''ns1.example.com'') \<rparr>], ())"
proof -
  have l: "map ToLower [''NS1.EXAMPLE.COM''] = map ToLower [''ns1.example.com'']"
    by (simp add: ToLower_def toLowerChar_def)
  have r: "GetRegistrarCorrections (exampleProvider parkedHosts [''NS1.EXAMPLE.COM'']) (zoneNS [''ns1.example.com'']) ()
     = (Inr [\<lparr> Msg = ''Change Nameservers from '' @ [CHR 0x27] @ ''NS1.EXAMPLE.COM''
                     @ [CHR 0x27] @ '' to '' @ [CHR 0x27] @ ''ns1.example.com'' @ [CHR 0x27],
               F = Some (SetCustom ''example'' ''com'' ''ns1.example.com'') \<rparr>], ())"
    by (simp add: GetRegistrarCorrections_fetched [OF exampleProvider_info] zoneNS_def SplitN_dot_2_def)
  from l r show ?thesis by blast
qed


text \<open>For a domain name without a dot and differing nameservers the function panics
  on \<open>parts[1]\<close>.\<close>

lemma GetRegistrarCorrections_panic_example:
  "GetRegistrarCorrections (exampleProvider parkedHosts [''ns9.example.com''])
     \<lparr> dc_Name = ''localhost'', dc_Records = [], dc_Nameservers = [\<lparr> ns_Name = ''ns1.example.com'' \<rparr>] \<rparr> ()
     = (Inl PanicIndexOutOfRange, ())"
  by (simp add: GetRegistrarCorrections_fetched [OF exampleProvider_info] SplitN_dot_2_def)

end
